theory Spec2Isabelle
  imports Complex_Main "HOL-Library.AList"
begin

section \<open>The Ollama streaming chat client (OllamaGeneratorAFE.py)\<close>

text \<open>
  The adapter has two methods. \<open>prepare_messages\<close> builds the message list that is sent
  to the inference server; \<open>generate_stream\<close> is an asynchronous generator that posts the
  request and turns every line of the streamed response body into one fragment.

  Python \<open>str\<close> and \<open>bytes\<close> values are both modelled as \<open>string\<close>. Exceptions are values
  of the type \<open>error\<close>. A generator is modelled by what a consumer observes when it drives
  the generator to exhaustion: the events in the order they happen, and how the run ends.
\<close>

subsection \<open>Data\<close>

text \<open>The dictionaries \<open>{"role": ..., "content": ...}\<close> of the message list.\<close>

record chat_message =
  role :: string
  content :: string

text \<open>
  One entry of the caller's conversation history. The source reads the attributes
  \<open>message.type\<close> and \<open>message.content\<close> of every entry.
\<close>

record conversation_item =
  item_type :: string
  item_content :: string

subsection \<open>String helpers of the Python library\<close>

text \<open>\<open>sep.join(xs)\<close>: the strings of \<open>xs\<close> with \<open>sep\<close> between neighbours, nothing escaped.\<close>

fun str_join :: "string \<Rightarrow> string list \<Rightarrow> string" where
  "str_join sep [] = []"
| "str_join sep [x] = x"
| "str_join sep (x # y # ys) = x @ sep @ str_join sep (y # ys)"

subsection \<open>prepare_messages\<close>

text \<open>The f-string \<open>evaluate_instructor\<close>; it has no replacement field, so it is a constant.\<close>

definition evaluate_instructor :: string where
  \<open>evaluate_instructor = concat [
     ''You serve as a judge tasked with evaluating teachers and instructors based on their video transcripts.  You will receive a user query and context pieces that have a semantic similarity to that specific query. Please answer these user queries only their provided context. If the provided documentation does not provide enough information, say so. \<newline>'',
     ''        Your assessment should cover various aspects, and your judgment should be quantified on a scale ranging from 0 to 3, with 0 indicating poor performance and 3 indicating exceptional performance. Ensure thorough consideration of the following criteria in your evaluation. final_output_matrix should contain a dictionary with each parameter as key and score as value.\<newline>'',
     ''        The criteria include -\<newline>'',
     ''        I)Communication Clarity\<newline>'',
     ''            Score: 0\<newline>'',
     ''            Example: "Today, we\'re, um, going to... you know, discuss something important. It\'s, uh, related to what we talked about last time."\<newline>'',
     ''            Explanation: The teacher\'s speech is filled with pauses and filler words, making it difficult for students to understand the topic.  \<newline>'',
     ''            Score: 1\<newline>'',
     ''            Example: "Today we will talk about photosynthesis. It\'s a process... um, well, plants use it to make food."\<newline>'',
     ''            Explanation: The teacher introduces the topic but lacks clarity and confidence, leading to potential confusion.\<newline>'',
     ''            Score: 2\<newline>'',
     ''            Example: "Photosynthesis is the process by which plants convert sunlight into energy. This energy is used to create food for the plant."\<newline>'',
     ''            Explanation: The teacher explains the concept clearly but without much elaboration or detailed examples.\<newline>'',
     ''            Score: 3\<newline>'',
     ''            Example: "Photosynthesis is the process by which plants convert sunlight into chemical energy. This process involves chlorophyll in the leaves capturing light energy to synthesize glucose from carbon dioxide and water, releasing oxygen as a byproduct. Think of it as plants\' way of cooking their food using sunlight."\<newline>'',
     ''            Explanation: The teacher provides a clear, detailed explanation with an analogy that aids understanding.\<newline>'',
     ''        II)Positivity\<newline>'',
     ''            Score: 0\<newline>'',
     ''            Example: "I guess we have to cover this boring topic today. Let\'s just get through it."\<newline>'',
     ''            Explanation: The teacher displays a negative attitude, which can demotivate students.\<newline>'',
     ''            Score: 1\<newline>'',
     ''            Example: "Let\'s talk about our lesson for today. It\'s not the most exciting, but we need to cover it."\<newline>'',
     ''            Explanation: The teacher shows a neutral attitude, which may not engage or encourage students.\<newline>'',
     ''            Score: 2\<newline>'',
     ''            Example: "Today we have an interesting topic to explore! It\'s going to be a good learning experience."\<newline>'',
     ''            Explanation: The teacher displays a generally positive attitude, creating a more welcoming environment.\<newline>'',
     ''            Score: 3\<newline>'',
     ''            Example: "Good morning, everyone! I\'m really excited about today\'s lesson. We\'re going to dive into the fascinating world of photosynthesis. I can\'t wait to see your thoughts and questions!"\<newline>'',
     ''            Explanation: The teacher\'s enthusiasm and positive demeanor create an encouraging and supportive learning environment.\<newline>'',
     ''        III)Personal Engagement\<newline>'',
     ''            Score: 0\<newline>'',
     ''            Example: "Just read the chapter on your own. I\'ll be at my desk if you need me."\<newline>'',
     ''            Explanation: The teacher shows little to no interest in engaging with students or the material.\<newline>'',
     ''            Score: 1\<newline>'',
     ''            Example: "Okay, we\'ll go through the lesson. Let me know if you have any questions."\<newline>'',
     ''            Explanation: The teacher is somewhat engaged but lacks enthusiasm and deeper interaction.\<newline>'',
     ''            Score: 2\<newline>'',
     ''            Example: "I\'m looking forward to our discussion on this topic. I want to hear your thoughts and questions."\<newline>'',
     ''            Explanation: The teacher shows genuine interest in the topic and engages with students, encouraging participation.\<newline>'',
     ''            Score: 3\<newline>'',
     ''            Example: "I love discussing this topic with you all. Your ideas and questions are fantastic. Let\'s explore this together and see where it takes us!"\<newline>'',
     ''            Explanation: The teacher is highly engaged and enthusiastic, fostering an interactive and dynamic learning experience.\<newline>'',
     ''        IV)Classroom Management Practices\<newline>'',
     ''            Score: 0\<newline>'',
     ''            Example: "Quiet down! Why can\'t you all just behave?"\<newline>'',
     ''            Explanation: The teacher struggles to maintain order and discipline, leading to a chaotic classroom environment.\<newline>'',
     ''            Score: 1\<newline>'',
     ''            Example: "Please settle down so we can start. We need to focus."\<newline>'',
     ''            Explanation: The teacher makes some effort to manage the class but lacks effective strategies to maintain discipline and engagement.\<newline>'',
     ''            Score: 2\<newline>'',
     ''            Example: "Let\'s use our quiet signals and start our lesson. Remember the rules we agreed on."\<newline>'',
     ''            Explanation: The teacher employs some strategies to manage the classroom, maintaining a generally orderly environment.\<newline>'',
     ''            Score: 3\<newline>'',
     ''            Example: "Great job on keeping our classroom rules! Let\'s move on to our next activity smoothly. I appreciate your cooperation."\<newline>'',
     ''            Explanation: The teacher effectively uses well-established strategies to maintain discipline and engagement, creating a well-managed classroom.\<newline>'',
     ''        V)Adherence to Rules\<newline>'',
     ''            Score: 0\<newline>'',
     ''            Example: "I know the rule says no food, but whatever, just eat if you want."\<newline>'',
     ''            Explanation: The teacher blatantly disregards established rules and procedures.\<newline>'',
     ''            Score: 1\<newline>'',
     ''            Example: "I\'m not too strict on the no food rule, but try not to make a mess."\<newline>'',
     ''            Explanation: The teacher occasionally bends the rules, leading to potential inconsistency.\<newline>'',
     ''            Score: 2\<newline>'',
     ''            Example: "Remember, no food in class as per the school policy. Let\'s stick to the rules."\<newline>'',
     ''            Explanation: The teacher generally adheres to the rules but might allow some flexibility.\<newline>'',
     ''            Score: 3\<newline>'',
     ''            Example: "We all know the rules about no food in the classroom. Let\'s respect that to maintain a clean and focused environment."\<newline>'',
     ''            Explanation: The teacher consistently adheres to established rules and procedures, setting a clear example.\<newline>'',
     ''        VI)Classroom Atmosphere\<newline>'',
     ''            Score: 0\<newline>'',
     ''            Example: "This class is so frustrating. I can\'t deal with this today."\<newline>'',
     ''            Explanation: The teacher creates a negative atmosphere, potentially affecting student motivation and learning.\<newline>'',
     ''            Score: 1\<newline>'',
     ''            Example: "Let\'s just get through today\'s lesson. We\'ll try to make it better next time."\<newline>'',
     ''            Explanation: The teacher maintains a neutral atmosphere, which might not be very motivating for students.\<newline>'',
     ''            Score: 2\<newline>'',
     ''            Example: "I appreciate everyone\'s effort today. Let\'s keep this positive energy going."\<newline>'',
     ''            Explanation: The teacher fosters a generally positive atmosphere, encouraging student participation and motivation.\<newline>'',
     ''            Score: 3\<newline>'',
     ''            Example: "Fantastic work, everyone! I love the energy in this room. Let\'s keep this enthusiasm up throughout the lesson."\<newline>'',
     ''            Explanation: The teacher creates a highly positive and engaging atmosphere, greatly enhancing student motivation and learning.\<newline>'',
     ''        VII)Student Participation\<newline>'',
     ''            Score: 0\<newline>'',
     ''            Example: "Just listen to me and don\'t ask questions right now."\<newline>'',
     ''            Explanation: The teacher discourages student participation, leading to a passive learning environment.\<newline>'',
     ''            Score: 1\<newline>'',
     ''            Example: "I\'ll answer questions later. Let me finish the explanation first."\<newline>'',
     ''            Explanation: The teacher allows some participation but controls it tightly, limiting student engagement.\<newline>'',
     ''            Score: 2\<newline>'',
     ''            Example: "Feel free to ask questions or share your thoughts as we go along."\<newline>'',
     ''            Explanation: The teacher encourages student participation, fostering a more interactive environment.\<newline>'',
     ''            Score: 3\<newline>'',
     ''            Example: "What do you all think about this concept? Let\'s discuss your ideas and questions. I want everyone to contribute."\<newline>'',
     ''            Explanation: The teacher actively promotes student participation, creating an inclusive and engaging learning experience.\<newline>'',
     ''        The output you provide should be strictly in a format where the response is a json response with 2 elements in it. One is judge_parameters and other is final_output_matrix. Below is how it should look like.\<newline>'',
     ''        judge_parameters=\<newline>'',
     ''        1.Communication Clarity - *SCORE ON A SCALE OF 0-3* + Explanation of the score\<newline>'',
     ''        2.Positivity - *SCORE ON A SCALE OF 0-3* + Explanation of the score\<newline>'',
     ''        3.Personal Engagement - *SCORE ON A SCALE OF 0-3* + Explanation of the score\<newline>'',
     ''        4.Classroom Management Practices - *SCORE ON A SCALE OF 0-3* + Explanation of the score\<newline>'',
     ''        5.Adherence to Rules - *SCORE ON A SCALE OF 0-3* + Explanation of the score\<newline>'',
     ''        6.Classroom Atmosphere - *SCORE ON A SCALE OF 0-3* + Explanation of the score\<newline>'',
     ''        7.Student Participation - *SCORE ON A SCALE OF 0-3* + Explanation of the score\<newline>'',
     ''        final_output_matrix(with keys and values)\<newline>'',
     ''        '']\<close>

text \<open>
  The list starts with the system message; the loop appends one dictionary per history
  entry; the final \<open>append\<close> adds the user message built from the two joined lists.
\<close>

definition user_content :: "string list \<Rightarrow> string list \<Rightarrow> string" where
  "user_content queries context =
     (let query = str_join '' '' queries;
          user_context = str_join '' '' context
      in ''With this provided context: '' @ [CHR 0x27] @ user_context @ [CHR 0x27] @
         '' Please judge this instructor: '' @ [CHR 0x27] @ query @ [CHR 0x27])"

definition prepare_messages ::
    "string list \<Rightarrow> string list \<Rightarrow> conversation_item list \<Rightarrow> chat_message list" where
  "prepare_messages queries context conversation =
     (let messages = [\<lparr>role = ''system'', content = evaluate_instructor\<rparr>];
          messages = foldl (\<lambda>messages message.
                        messages @ [\<lparr>role = item_type message, content = item_content message\<rparr>])
                      messages conversation
      in messages @ [\<lparr>role = ''user'', content = user_content queries context\<rparr>])"

subsection \<open>Parsed JSON values\<close>

text \<open>
  What \<open>json.loads\<close> returns: \<open>None\<close>, a \<open>bool\<close>, an \<open>int\<close>, a \<open>float\<close>, a \<open>str\<close>, a \<open>list\<close>
  or a \<open>dict\<close>. A dictionary is the list of its items in insertion order. A finite float
  is represented by its value; the sign of a zero is not kept.
\<close>

datatype pyfloat = Finite rat | PosInf | NegInf | NaN

datatype json =
    JNull
  | JBool bool
  | JInt int
  | JFloat pyfloat
  | JStr string
  | JArr "json list"
  | JObj "(string \<times> json) list"

text \<open>
  The exceptions that can leave \<open>generate_stream\<close>. \<open>Unmodelled\<close> is not one of them: it
  marks an input on which the model of the JSON decoder below does not say what the library
  does.
\<close>

datatype error =
    InvalidURL
  | ClientError string
  | UnicodeDecodeError
  | JSONDecodeError
  | AttributeError
  | RecursionError
  | Unmodelled

text \<open>Python's truth value of a parsed value, as the conditional expression tests it.\<close>

fun truthy :: "json \<Rightarrow> bool" where
  "truthy JNull = False"
| "truthy (JBool b) = b"
| "truthy (JInt i) = (i \<noteq> 0)"
| "truthy (JFloat f) = (f \<noteq> Finite 0)"
| "truthy (JStr s) = (s \<noteq> [])"
| "truthy (JArr xs) = (xs \<noteq> [])"
| "truthy (JObj kvs) = (kvs \<noteq> [])"

text \<open>
  \<open>obj.get(key, default)\<close>. Only a \<open>dict\<close> has the method; on every other parsed value the
  attribute lookup raises \<open>AttributeError\<close>.
\<close>

fun py_get :: "json \<Rightarrow> string \<Rightarrow> json \<Rightarrow> error + json" where
  "py_get (JObj kvs) key dflt =
     Inr (case map_of kvs key of None \<Rightarrow> dflt | Some v \<Rightarrow> v)"
| "py_get _ key dflt = Inl AttributeError"

text \<open>
  \<open>bytes.strip()\<close> removes leading and trailing ASCII whitespace: space, tab, line feed,
  carriage return, vertical tab and form feed.
\<close>

definition is_space :: "char \<Rightarrow> bool" where
  "is_space c \<longleftrightarrow> c \<in> set [CHR 0x20, CHR 0x09, CHR 0x0A, CHR 0x0D, CHR 0x0B, CHR 0x0C]"

definition py_strip :: "string \<Rightarrow> string" where
  "py_strip s = rev (dropWhile is_space (rev (dropWhile is_space s)))"

text \<open>\<open>os.environ.get(name, default)\<close>.\<close>

definition environ_get :: "(string \<rightharpoonup> string) \<Rightarrow> string \<Rightarrow> string \<Rightarrow> string" where
  "environ_get env name dflt = (case env name of None \<Rightarrow> dflt | Some v \<Rightarrow> v)"

subsection \<open>generate_stream\<close>

text \<open>The dictionaries \<open>{"message": ..., "finish_reason": ...}\<close> that the generator yields.\<close>

record fragment =
  message :: json
  finish_reason :: string

text \<open>The request body \<open>{"model": model, "messages": messages}\<close>.\<close>

record payload =
  model :: string
  messages :: "chat_message list"

text \<open>
  The response as the loop sees it: the lines that \<open>response.content\<close> delivers, in order,
  and the exception with which the stream breaks after them, if it does.
\<close>

record response =
  lines :: "string list"
  broken :: "error option"

text \<open>
  An observable event of a run: a yielded fragment, or the call of \<open>session.post\<close> with its
  URL and body. A run ends by returning or by raising.
\<close>

datatype event = Yield fragment | Post string payload

datatype outcome = Returned | Raised error

text \<open>
  The body of the loop for one line. \<open>loads\<close> stands for
  \<open>json.loads(line.decode("utf-8"))\<close>, which either raises or returns the parsed value.
\<close>

definition process_line :: "(string \<Rightarrow> error + json) \<Rightarrow> string \<Rightarrow> error + fragment" where
  "process_line loads line =
     (if py_strip line \<noteq> [] then
        (case loads line of
           Inl e \<Rightarrow> Inl e
         | Inr json_data \<Rightarrow>
             (case py_get json_data ''message'' (JObj []) of
                Inl e \<Rightarrow> Inl e
              | Inr m \<Rightarrow>
                  (case py_get m ''content'' (JStr '''') of
                     Inl e \<Rightarrow> Inl e
                   | Inr msg \<Rightarrow>
                       (case py_get json_data ''done'' (JBool False) of
                          Inl e \<Rightarrow> Inl e
                        | Inr done \<Rightarrow>
                            Inr \<lparr>message = msg,
                                 finish_reason = (if truthy done then ''stop'' else '''')\<rparr>))))
      else Inr \<lparr>message = JStr '''', finish_reason = ''stop''\<rparr>)"

text \<open>
  The loop \<open>async for line in response.content\<close>: the fragments yielded and how the loop
  ends. An exception of the body ends the loop; the lines after it are not read.
\<close>

fun read_lines ::
    "(string \<Rightarrow> error + json) \<Rightarrow> string list \<Rightarrow> error option \<Rightarrow> fragment list \<times> outcome" where
  "read_lines loads [] brk = ([], case brk of None \<Rightarrow> Returned | Some e \<Rightarrow> Raised e)"
| "read_lines loads (line # rest) brk =
     (case process_line loads line of
        Inl e \<Rightarrow> ([], Raised e)
      | Inr f \<Rightarrow> (let (fs, out) = read_lines loads rest brk in (f # fs, out)))"

text \<open>
  The generator. \<open>post\<close> stands for \<open>session.post(url, json=data)\<close>: it raises or gives the
  response. The fragment for a missing URL is yielded inside an \<open>if\<close> without \<open>return\<close>, so
  the statements after it run in both cases. \<open>except Exception: raise\<close> re-raises unchanged.
\<close>

definition generate_stream ::
    "(string \<Rightarrow> error + json) \<Rightarrow> (string \<Rightarrow> payload \<Rightarrow> error + response) \<Rightarrow>
     (string \<rightharpoonup> string) \<Rightarrow> string list \<Rightarrow> string list \<Rightarrow> conversation_item list option \<Rightarrow>
     event list \<times> outcome" where
  "generate_stream loads post env queries context conversation =
     (let url = environ_get env ''OLLAMA_URL'' '''';
          mdl = environ_get env ''OLLAMA_MODEL'' '''';
          missing = (if url = ''''
                     then [Yield \<lparr>message = JStr ''Missing Ollama URL'', finish_reason = ''stop''\<rparr>]
                     else []);
          url = url @ ''/api/chat'';
          conversation = (case conversation of None \<Rightarrow> [] | Some c \<Rightarrow> c);
          msgs = prepare_messages queries context conversation;
          data = \<lparr>model = mdl, messages = msgs\<rparr>
      in case post url data of
           Inl e \<Rightarrow> (missing @ [Post url data], Raised e)
         | Inr response \<Rightarrow>
             (let (fs, out) = read_lines loads (lines response) (broken response)
              in (missing @ [Post url data] @ map Yield fs, out)))"

text \<open>The fragments of a run, in the order they were yielded.\<close>

fun yielded :: "event list \<Rightarrow> fragment list" where
  "yielded [] = []"
| "yielded (Yield f # es) = f # yielded es"
| "yielded (Post u d # es) = yielded es"

subsection \<open>A model of the library's JSON decoder\<close>

text \<open>
  \<open>json_loads\<close> models \<open>json.loads(line.decode("utf-8"))\<close> of the standard library, following
  \<open>json/decoder.py\<close> and \<open>json/scanner.py\<close>, for lines of ASCII bytes that hold null,
  booleans, integers, strings with the single-character escapes, arrays and objects.
  Where the library's behaviour is outside this fragment (a byte above 127, a
  \<open>\u\<close> escape, a number with a fraction or an exponent, \<open>NaN\<close> and the infinities) the
  model answers \<open>Inl Unmodelled\<close>. The general statements below hold for every
  decoder \<open>loads\<close>; this one instantiates them on concrete lines.
\<close>

definition is_ws :: "char \<Rightarrow> bool" where
  "is_ws c \<longleftrightarrow> c \<in> set [CHR 0x20, CHR 0x09, CHR 0x0A, CHR 0x0D]"

definition skip_ws :: "string \<Rightarrow> string" where
  "skip_ws s = dropWhile is_ws s"

definition is_digit :: "char \<Rightarrow> bool" where
  "is_digit c \<longleftrightarrow> c \<in> set ''0123456789''"

definition py_int :: "string \<Rightarrow> int" where
  "py_int lexeme =
     (let value = (\<lambda>ds. foldl (\<lambda>n d. 10 * n + (of_char d - 48)) 0 ds)
      in case lexeme of
           [] \<Rightarrow> 0
         | c # ds \<Rightarrow> if c = CHR ''-'' then - value ds else value (c # ds))"

text \<open>The table \<open>BACKSLASH\<close> of the decoder.\<close>

definition unescape :: "char \<Rightarrow> char option" where
  "unescape e =
     (if e = CHR 0x22 then Some (CHR 0x22)
      else if e = CHR 0x5C then Some (CHR 0x5C)
      else if e = CHR ''/'' then Some (CHR ''/'')
      else if e = CHR ''b'' then Some (CHR 0x08)
      else if e = CHR ''f'' then Some (CHR 0x0C)
      else if e = CHR ''n'' then Some (CHR 0x0A)
      else if e = CHR ''r'' then Some (CHR 0x0D)
      else if e = CHR ''t'' then Some (CHR 0x09)
      else None)"

text \<open>
  \<open>scanstring\<close> in strict mode, started behind the opening quote: the decoded string and
  the text behind the closing quote.
\<close>

fun scanstring :: "string \<Rightarrow> error + (string \<times> string)" where
  "scanstring [] = Inl JSONDecodeError"
| "scanstring (c # cs) =
     (if c = CHR 0x22 then Inr ([], cs)
      else if c = CHR 0x5C then
        (case cs of
           [] \<Rightarrow> Inl JSONDecodeError
         | e # cs' \<Rightarrow>
             if e = CHR ''u'' then Inl Unmodelled
             else (case unescape e of
                     None \<Rightarrow> Inl JSONDecodeError
                   | Some ch \<Rightarrow>
                       (case scanstring cs' of
                          Inl err \<Rightarrow> Inl err
                        | Inr (s, rest) \<Rightarrow> Inr (ch # s, rest))))
      else if (of_char c :: nat) < 0x20 then Inl JSONDecodeError
      else (case scanstring cs of
              Inl err \<Rightarrow> Inl err
            | Inr (s, rest) \<Rightarrow> Inr (c # s, rest)))"

text \<open>
  The first group of \<open>NUMBER_RE\<close>, \<open>-?(?:0|[1-9][0-9]*)\<close>: the matched text and the rest.
  The second and third group, \<open>\.[0-9]+\<close> and \<open>[eE][-+]?[0-9]+\<close>, make the number a float.
\<close>

definition match_integer :: "string \<Rightarrow> (string \<times> string) option" where
  "match_integer s =
     (let (sign, t) = (case s of
                         [] \<Rightarrow> ([], s)
                       | c # t' \<Rightarrow> if c = CHR ''-'' then ([c], t') else ([], s))
      in case t of
           [] \<Rightarrow> None
         | d # u \<Rightarrow>
             if d = CHR ''0'' then Some (sign @ [d], u)
             else if is_digit d then Some (sign @ takeWhile is_digit t, dropWhile is_digit t)
             else None)"

definition has_frac :: "string \<Rightarrow> bool" where
  "has_frac r = (case r of c # d # _ \<Rightarrow> c = CHR ''.'' \<and> is_digit d | _ \<Rightarrow> False)"

definition has_exp :: "string \<Rightarrow> bool" where
  "has_exp r =
     (case r of
        [] \<Rightarrow> False
      | c # t \<Rightarrow>
          (c = CHR ''e'' \<or> c = CHR ''E'') \<and>
          (case t of
             [] \<Rightarrow> False
           | d # u \<Rightarrow>
               is_digit d \<or>
               ((d = CHR ''-'' \<or> d = CHR ''+'') \<and> (case u of [] \<Rightarrow> False | x # _ \<Rightarrow> is_digit x))))"

text \<open>\<open>dict(pairs)\<close>: a repeated key keeps its first position and takes the last value.\<close>

definition py_dict :: "(string \<times> json) list \<Rightarrow> (string \<times> json) list" where
  "py_dict pairs = foldl (\<lambda>d (k, v). AList.update k v d) [] pairs"

text \<open>
  \<open>scan_once\<close> with the loops of \<open>JSONObject\<close> and \<open>JSONArray\<close>. \<open>object_pairs\<close> starts behind
  the opening quote of a key, \<open>array_values\<close> at a value. The first argument bounds the
  depth of the calls; at depth zero the scan ends with \<open>RecursionError\<close>. Two calls in a
  row read at least one character, so \<open>json_loads\<close> starts with twice the length of the
  text, and two, and never reaches zero (\<open>json_loads_no_recursion_error\<close> below). The
  interpreter's own limit on the nesting of arrays and objects is not modelled.
\<close>

fun scan_once :: "nat \<Rightarrow> string \<Rightarrow> error + (json \<times> string)"
  and object_pairs :: "nat \<Rightarrow> (string \<times> json) list \<Rightarrow> string \<Rightarrow> error + (json \<times> string)"
  and array_values :: "nat \<Rightarrow> json list \<Rightarrow> string \<Rightarrow> error + (json \<times> string)" where
  "scan_once 0 s = Inl RecursionError"
| "scan_once (Suc n) [] = Inl JSONDecodeError"
| "scan_once (Suc n) (c # cs) =
     (if c = CHR 0x22 then
        (case scanstring cs of
           Inl e \<Rightarrow> Inl e
         | Inr (s, rest) \<Rightarrow> Inr (JStr s, rest))
      else if c = CHR ''{'' then
        (case skip_ws cs of
           [] \<Rightarrow> Inl JSONDecodeError
         | d # r \<Rightarrow>
             if d = CHR ''}'' then Inr (JObj [], r)
             else if d = CHR 0x22 then object_pairs n [] r
             else Inl JSONDecodeError)
      else if c = CHR ''['' then
        (case skip_ws cs of
           [] \<Rightarrow> array_values n [] []
         | d # r \<Rightarrow>
             if d = CHR '']'' then Inr (JArr [], r)
             else array_values n [] (d # r))
      else if take 4 (c # cs) = ''null'' then Inr (JNull, drop 4 (c # cs))
      else if take 4 (c # cs) = ''true'' then Inr (JBool True, drop 4 (c # cs))
      else if take 5 (c # cs) = ''false'' then Inr (JBool False, drop 5 (c # cs))
      else
        (case match_integer (c # cs) of
           Some (lexeme, rest) \<Rightarrow>
             if has_frac rest \<or> has_exp rest then Inl Unmodelled
             else Inr (JInt (py_int lexeme), rest)
         | None \<Rightarrow>
             if take 3 (c # cs) = ''NaN'' \<or> take 8 (c # cs) = ''Infinity''
                \<or> take 9 (c # cs) = ''-Infinity''
             then Inl Unmodelled
             else Inl JSONDecodeError))"
| "object_pairs 0 pairs s = Inl RecursionError"
| "object_pairs (Suc n) pairs s =
     (case scanstring s of
        Inl e \<Rightarrow> Inl e
      | Inr (key, r) \<Rightarrow>
          (case skip_ws r of
             [] \<Rightarrow> Inl JSONDecodeError
           | colon # r1 \<Rightarrow>
               if colon \<noteq> CHR '':'' then Inl JSONDecodeError
               else
                 (case scan_once n (skip_ws r1) of
                    Inl e \<Rightarrow> Inl e
                  | Inr (v, r2) \<Rightarrow>
                      (case skip_ws r2 of
                         [] \<Rightarrow> Inl JSONDecodeError
                       | d # r3 \<Rightarrow>
                           if d = CHR ''}'' then Inr (JObj (py_dict (pairs @ [(key, v)])), r3)
                           else if d = CHR '','' then
                             (case skip_ws r3 of
                                [] \<Rightarrow> Inl JSONDecodeError
                              | q # r4 \<Rightarrow>
                                  if q = CHR 0x22 then object_pairs n (pairs @ [(key, v)]) r4
                                  else Inl JSONDecodeError)
                           else Inl JSONDecodeError))))"
| "array_values 0 values s = Inl RecursionError"
| "array_values (Suc n) values s =
     (case scan_once n s of
        Inl e \<Rightarrow> Inl e
      | Inr (v, r) \<Rightarrow>
          (case skip_ws r of
             [] \<Rightarrow> Inl JSONDecodeError
           | d # r1 \<Rightarrow>
               if d = CHR '']'' then Inr (JArr (values @ [v]), r1)
               else if d = CHR '','' then array_values n (values @ [v]) (skip_ws r1)
               else Inl JSONDecodeError))"

text \<open>
  \<open>JSONDecoder.decode\<close>: white space, one value, white space, and nothing else.
\<close>

definition json_loads :: "string \<Rightarrow> error + json" where
  "json_loads line =
     (if \<exists>c \<in> set line. (of_char c :: nat) \<ge> 128 then Inl Unmodelled
      else (case scan_once (Suc (Suc (length line + length line))) (skip_ws line) of
              Inl e \<Rightarrow> Inl e
            | Inr (obj, rest) \<Rightarrow> if skip_ws rest = [] then Inr obj else Inl JSONDecodeError))"

subsection \<open>Notions of the specification\<close>

text \<open>
  The completion flag of a fragment, and the text and the completion flag that the
  specification reads off a parsed object: \<open>message.content\<close>, the empty string when
  absent, and \<open>done\<close>, false when absent. A \<open>done\<close> that is no boolean counts by its truth
  value.
\<close>

definition completion :: "fragment \<Rightarrow> bool" where
  "completion f \<longleftrightarrow> finish_reason f = ''stop''"

definition spec_text :: "(string \<times> json) list \<Rightarrow> json" where
  "spec_text obj =
     (case map_of obj ''message'' of
        None \<Rightarrow> JStr ''''
      | Some m \<Rightarrow>
          (case m of
             JObj kvs \<Rightarrow> (case map_of kvs ''content'' of None \<Rightarrow> JStr '''' | Some v \<Rightarrow> v)
           | _ \<Rightarrow> JStr ''''))"

definition spec_done :: "(string \<times> json) list \<Rightarrow> bool" where
  "spec_done obj = (case map_of obj ''done'' of None \<Rightarrow> False | Some d \<Rightarrow> truthy d)"

text \<open>The \<open>message\<close> member of an object is absent or is itself an object.\<close>

definition message_is_object :: "(string \<times> json) list \<Rightarrow> bool" where
  "message_is_object obj =
     (case map_of obj ''message'' of None \<Rightarrow> True | Some (JObj kvs) \<Rightarrow> True | Some _ \<Rightarrow> False)"

subsection \<open>Example data\<close>

text \<open>
  The three lines of a short reply, each with its line feed as the stream reader delivers
  it, a blank line, a line that is no JSON, and a line whose \<open>message\<close> is a string.
\<close>

definition line_hel :: string where
  \<open>line_hel = ''{"message":{"content":"Hel"},"done":false}\<newline>''\<close>

definition line_lo :: string where
  \<open>line_lo = ''{"message":{"content":"lo"},"done":false}\<newline>''\<close>

definition line_done :: string where
  \<open>line_done = ''{"message":{"content":""},"done":true}\<newline>''\<close>

definition line_blank :: string where
  \<open>line_blank = ''\<newline>''\<close>

definition line_bad :: string where
  \<open>line_bad = ''not json\<newline>''\<close>

definition example_env :: "string \<rightharpoonup> string" where
  "example_env = [''OLLAMA_URL'' \<mapsto> ''http://localhost:11434'', ''OLLAMA_MODEL'' \<mapsto> ''llama3'']"

text \<open>The requests of a run: the URL and body of every call of \<open>session.post\<close>.\<close>

fun posted :: "event list \<Rightarrow> (string \<times> payload) list" where
  "posted [] = []"
| "posted (Yield f # es) = posted es"
| "posted (Post u d # es) = (u, d) # posted es"

section \<open>Properties\<close>

subsection \<open>Auxiliary facts\<close>

lemma yielded_append: "yielded (es @ es') = yielded es @ yielded es'"
  by (induction es rule: yielded.induct) simp_all

lemma yielded_map_Yield: "yielded (map Yield fs) = fs"
  by (induction fs) simp_all

lemma posted_append: "posted (es @ es') = posted es @ posted es'"
  by (induction es rule: posted.induct) simp_all

lemma posted_map_Yield: "posted (map Yield fs) = []"
  by (induction fs) simp_all

text \<open>The history loop appends the converted entries behind what is already there.\<close>

lemma history_loop:
  "foldl (\<lambda>messages message. messages @ [g message]) acc conversation
     = acc @ map g conversation"
  by (induction conversation arbitrary: acc) simp_all

lemma prepare_messages_layout:
  "prepare_messages queries context conversation =
     \<lparr>role = ''system'', content = evaluate_instructor\<rparr>
       # map (\<lambda>m. \<lparr>role = item_type m, content = item_content m\<rparr>) conversation
       @ [\<lparr>role = ''user'', content = user_content queries context\<rparr>]"
  by (simp add: prepare_messages_def history_loop)

text \<open>A fragment of the loop body carries one of the two completion values.\<close>

lemma process_line_finish_reason:
  assumes "process_line loads line = Inr f"
  shows "finish_reason f = '''' \<or> finish_reason f = ''stop''"
  using assms
  by (auto simp: process_line_def split: if_splits sum.splits)

lemma read_lines_finish_reason:
  "f \<in> set (fst (read_lines loads ls brk)) \<Longrightarrow>
     finish_reason f = '''' \<or> finish_reason f = ''stop''"
proof (induction ls)
  case Nil
  then show ?case by simp
next
  case (Cons l ls)
  show ?case
  proof (cases "process_line loads l")
    case (Inl e)
    with Cons.prems show ?thesis by simp
  next
    case (Inr g)
    with Cons.prems have "f = g \<or> f \<in> set (fst (read_lines loads ls brk))"
      by (simp add: case_prod_beta)
    then show ?thesis
      using Cons.IH process_line_finish_reason [OF Inr] by blast
  qed
qed

text \<open>
  Reading a body that is split in two: if the first part is read to its end, the loop goes
  on with the second part; if the first part raises, the second part is never read.
\<close>

lemma read_lines_append:
  "read_lines loads (xs @ ys) brk =
     (case snd (read_lines loads xs None) of
        Returned \<Rightarrow> (fst (read_lines loads xs None) @ fst (read_lines loads ys brk),
                     snd (read_lines loads ys brk))
      | Raised e \<Rightarrow> (fst (read_lines loads xs None), Raised e))"
proof (induction xs)
  case Nil
  show ?case by simp
next
  case (Cons x xs)
  show ?case
  proof (cases "process_line loads x")
    case (Inl e)
    then show ?thesis by simp
  next
    case (Inr f)
    then show ?thesis
      using Cons.IH by (simp add: case_prod_beta split: outcome.splits)
  qed
qed

text \<open>A run with a configured URL against a transport that answers with a response.\<close>

lemma generate_stream_configured:
  assumes "environ_get env ''OLLAMA_URL'' '''' \<noteq> ''''"
  shows "yielded (fst (generate_stream loads (\<lambda>url data. Inr r) env queries context conversation))
           = fst (read_lines loads (lines r) (broken r))"
    and "snd (generate_stream loads (\<lambda>url data. Inr r) env queries context conversation)
           = snd (read_lines loads (lines r) (broken r))"
  using assms
  by (simp_all add: generate_stream_def Let_def case_prod_beta yielded_map_Yield)

subsection \<open>The bound of the decoder is never reached\<close>

text \<open>
  Every successful scan leaves a shorter text, so the depth that \<open>json_loads\<close> allows is
  enough for every line: the model never answers \<open>RecursionError\<close>.
\<close>

lemma scanstring_rest: "scanstring s = Inr (k, r) \<Longrightarrow> length r < length s"
  by (induction s arbitrary: k r rule: scanstring.induct)
    (fastforce split: if_splits list.splits option.splits sum.splits)+

lemma scanstring_no_recursion: "scanstring s \<noteq> Inl RecursionError"
proof (induction s rule: scanstring.induct)
  case 1
  show ?case by simp
next
  case (2 c cs)
  show ?case
  proof (cases "c = CHR 0x22")
    case True
    then show ?thesis by simp
  next
    case q: False
    show ?thesis
    proof (cases "c = CHR 0x5C")
      case True
      show ?thesis
      proof (cases cs)
        case Nil
        with q True show ?thesis by simp
      next
        case (Cons e cs')
        show ?thesis
        proof (cases "e = CHR ''u''")
          case u: True
          with q True Cons show ?thesis by simp
        next
          case u: False
          show ?thesis
          proof (cases "unescape e")
            case None
            with q True Cons u show ?thesis by simp
          next
            case (Some ch)
            with q True Cons u "2.IH"(1) [OF q True Cons u Some] show ?thesis
              by (auto split: sum.splits)
          qed
        qed
      qed
    next
      case b: False
      show ?thesis
      proof (cases "(of_char c :: nat) < 0x20")
        case True
        with q b show ?thesis by simp
      next
        case False
        with q b "2.IH"(2) [OF q b False] show ?thesis
          by (auto split: sum.splits)
      qed
    qed
  qed
qed

lemma skip_ws_length: "length (skip_ws s) \<le> length s"
  by (simp add: skip_ws_def length_dropWhile_le)

lemma dropWhile_shorter:
  "length (dropWhile P xs) < Suc (length xs)" "length (dropWhile P xs) < Suc (Suc (length xs))"
  using length_dropWhile_le [of P xs] by simp_all

lemma match_integer_rest:
  assumes m: "match_integer s = Some (lexeme, r)"
  shows "length r < length s"
proof (cases s)
  case Nil
  with m show ?thesis by (simp add: match_integer_def)
next
  case (Cons c t)
  show ?thesis
  proof (cases "c = CHR ''-''")
    case True
    with m Cons show ?thesis
      by (cases t) (auto simp: match_integer_def dropWhile_shorter split: if_splits)
  next
    case False
    with m Cons show ?thesis
      by (auto simp: match_integer_def dropWhile_shorter split: if_splits)
  qed
qed

lemma skip_ws_Cons: "skip_ws s = d # t \<Longrightarrow> length t < length s"
  using skip_ws_length [of s] by simp

lemma rest_shorter:
  "(scan_once n s = Inr (v, r) \<longrightarrow> length r < length s) \<and>
   (object_pairs n ps s = Inr (v, r) \<longrightarrow> length r < length s) \<and>
   (array_values n vs s = Inr (v, r) \<longrightarrow> length r < length s)"
proof (induction n arbitrary: s ps vs v r)
  case 0
  show ?case by simp
next
  case (Suc n)
  have so: "\<And>s v r. scan_once n s = Inr (v, r) \<Longrightarrow> length r < length s"
    and op: "\<And>ps s v r. object_pairs n ps s = Inr (v, r) \<Longrightarrow> length r < length s"
    and av: "\<And>vs s v r. array_values n vs s = Inr (v, r) \<Longrightarrow> length r < length s"
    using Suc.IH by blast+
  have 1: "length r < length s" if h: "scan_once (Suc n) s = Inr (v, r)"
  proof (cases s)
    case Nil
    with h show ?thesis by simp
  next
    case (Cons c cs)
    note h' = h [unfolded Cons]
    consider (str) "c = CHR 0x22" | (obj) "c \<noteq> CHR 0x22" "c = CHR ''{''"
      | (arr) "c \<noteq> CHR 0x22" "c \<noteq> CHR ''{''" "c = CHR ''[''"
      | (other) "c \<noteq> CHR 0x22" "c \<noteq> CHR ''{''" "c \<noteq> CHR ''[''"
      by blast
    then show ?thesis
    proof cases
      case str
      with h' obtain k where "scanstring cs = Inr (k, r)"
        by (auto split: sum.splits)
      from scanstring_rest [OF this] Cons show ?thesis by simp
    next
      case obj
      show ?thesis
      proof (cases "skip_ws cs")
        case Nil
        with h' obj show ?thesis by simp
      next
        case (Cons d t)
        note sk = skip_ws_Cons [OF Cons]
        from h' obj Cons have "r = t \<or> object_pairs n [] t = Inr (v, r)"
          by (simp split: if_splits)
        then show ?thesis
          using sk op [of "[]" t v r] \<open>s = c # cs\<close> by auto
      qed
    next
      case arr
      show ?thesis
      proof (cases "skip_ws cs")
        case Nil
        with h' arr have "array_values n [] [] = Inr (v, r)" by simp
        from av [OF this] show ?thesis by simp
      next
        case (Cons d t)
        note sk = skip_ws_Cons [OF Cons]
        from h' arr Cons have "r = t \<or> array_values n [] (d # t) = Inr (v, r)"
          by (simp split: if_splits)
        then show ?thesis
          using sk av [of "[]" "d # t" v r] \<open>s = c # cs\<close> by auto
      qed
    next
      case other
      with h' have "r = drop 4 (c # cs) \<or> r = drop 5 (c # cs)
          \<or> (\<exists>lexeme. match_integer (c # cs) = Some (lexeme, r))"
        by (simp split: if_splits option.splits prod.splits)
      then show ?thesis
        using Cons by (auto dest!: match_integer_rest)
    qed
  qed
  have 2: "length r < length s" if h: "object_pairs (Suc n) ps s = Inr (v, r)"
  proof -
    from h obtain key r0 where k: "scanstring s = Inr (key, r0)"
      by (auto split: sum.splits)
    from h k obtain colon r1 where c: "skip_ws r0 = colon # r1"
      by (cases "skip_ws r0") auto
    from h k c obtain w r2 where w: "scan_once n (skip_ws r1) = Inr (w, r2)"
      by (auto split: if_splits sum.splits)
    from h k c w obtain d r3 where d: "skip_ws r2 = d # r3"
      by (cases "skip_ws r2") (auto split: if_splits)
    have len: "length r3 < length s"
      using scanstring_rest [OF k] skip_ws_Cons [OF c] so [OF w] skip_ws_length [of r1]
        skip_ws_Cons [OF d]
      by linarith
    from h k c w d have "r = r3 \<or>
        (\<exists>q r4. skip_ws r3 = q # r4 \<and> object_pairs n (ps @ [(key, w)]) r4 = Inr (v, r))"
      by (cases "skip_ws r3") (auto split: if_splits)
    then show ?thesis
      using len by (auto dest!: op skip_ws_Cons)
  qed
  have 3: "length r < length s" if h: "array_values (Suc n) vs s = Inr (v, r)"
  proof -
    from h obtain w r0 where w: "scan_once n s = Inr (w, r0)"
      by (auto split: sum.splits)
    from h w obtain d r1 where d: "skip_ws r0 = d # r1"
      by (cases "skip_ws r0") auto
    have len: "length r1 < length s"
      using so [OF w] skip_ws_Cons [OF d] by linarith
    from h w d have "r = r1 \<or> array_values n (vs @ [w]) (skip_ws r1) = Inr (v, r)"
      by (auto split: if_splits)
    then show ?thesis
      using len skip_ws_length [of r1] by (auto dest!: av)
  qed
  show ?case
    using 1 2 3 by blast
qed

lemma scan_once_rest: "scan_once n s = Inr (v, r) \<Longrightarrow> length r < length s"
  using rest_shorter by blast

lemma object_pairs_rest: "object_pairs n ps s = Inr (v, r) \<Longrightarrow> length r < length s"
  using rest_shorter by blast

lemma array_values_rest: "array_values n vs s = Inr (v, r) \<Longrightarrow> length r < length s"
  using rest_shorter by blast


lemma enough_fuel:
  "(2 * length s + 2 \<le> n \<longrightarrow> scan_once n s \<noteq> Inl RecursionError) \<and>
   (2 * length s + 1 \<le> n \<longrightarrow> object_pairs n ps s \<noteq> Inl RecursionError) \<and>
   (2 * length s + 3 \<le> n \<longrightarrow> array_values n vs s \<noteq> Inl RecursionError)"
proof (induction n arbitrary: s ps vs)
  case 0
  show ?case by simp
next
  case (Suc n)
  have so: "\<And>s. 2 * length s + 2 \<le> n \<Longrightarrow> scan_once n s \<noteq> Inl RecursionError"
    and op: "\<And>ps s. 2 * length s + 1 \<le> n \<Longrightarrow> object_pairs n ps s \<noteq> Inl RecursionError"
    and av: "\<And>vs s. 2 * length s + 3 \<le> n \<Longrightarrow> array_values n vs s \<noteq> Inl RecursionError"
    using Suc.IH by blast+
  have 1: "scan_once (Suc n) s \<noteq> Inl RecursionError" if b: "2 * length s + 2 \<le> Suc n"
  proof (cases s)
    case Nil
    then show ?thesis by simp
  next
    case (Cons c cs)
    consider (str) "c = CHR 0x22" | (obj) "c \<noteq> CHR 0x22" "c = CHR ''{''"
      | (arr) "c \<noteq> CHR 0x22" "c \<noteq> CHR ''{''" "c = CHR ''[''"
      | (other) "c \<noteq> CHR 0x22" "c \<noteq> CHR ''{''" "c \<noteq> CHR ''[''"
      by blast
    then show ?thesis
    proof cases
      case str
      then show ?thesis
        using Cons scanstring_no_recursion [of cs] by (auto split: sum.splits)
    next
      case obj
      show ?thesis
      proof (cases "skip_ws cs")
        case Nil
        with obj Cons show ?thesis by simp
      next
        case (Cons d t)
        have "2 * length t + 1 \<le> n"
          using skip_ws_Cons [OF Cons] b \<open>s = c # cs\<close> by simp
        from op [OF this] obj Cons \<open>s = c # cs\<close> show ?thesis by simp
      qed
    next
      case arr
      show ?thesis
      proof (cases "skip_ws cs")
        case Nil
        have "2 * length ([]::string) + 3 \<le> n"
          using b \<open>s = c # cs\<close> by simp
        from av [OF this] arr Nil \<open>s = c # cs\<close> show ?thesis by simp
      next
        case (Cons d t)
        have "2 * length (d # t) + 3 \<le> n"
          using skip_ws_length [of cs] b \<open>s = c # cs\<close> unfolding Cons by simp
        from av [OF this] arr Cons \<open>s = c # cs\<close> show ?thesis by simp
      qed
    next
      case other
      with Cons show ?thesis
        by (simp split: option.splits prod.splits)
    qed
  qed
  have 2: "object_pairs (Suc n) ps s \<noteq> Inl RecursionError" if b: "2 * length s + 1 \<le> Suc n"
  proof
    assume h: "object_pairs (Suc n) ps s = Inl RecursionError"
    from h scanstring_no_recursion [of s] obtain key r0 where k: "scanstring s = Inr (key, r0)"
      by (cases "scanstring s") auto
    from h k obtain colon r1 where c: "skip_ws r0 = colon # r1"
      by (cases "skip_ws r0") auto
    have l1: "length r1 + 2 \<le> length s"
      using scanstring_rest [OF k] skip_ws_Cons [OF c] by linarith
    have "2 * length (skip_ws r1) + 2 \<le> n"
      using l1 skip_ws_length [of r1] b by linarith
    from so [OF this] h k c obtain w r2 where w: "scan_once n (skip_ws r1) = Inr (w, r2)"
      by (cases "scan_once n (skip_ws r1)") (auto split: if_splits)
    from h k c w obtain d r3 where d: "skip_ws r2 = d # r3"
      by (cases "skip_ws r2") (auto split: if_splits)
    have l3: "length r3 + 4 \<le> length s"
      using l1 scan_once_rest [OF w] skip_ws_length [of r1] skip_ws_Cons [OF d] by linarith
    from h k c w d obtain q r4 where q: "skip_ws r3 = q # r4"
      and o: "object_pairs n (ps @ [(key, w)]) r4 = Inl RecursionError"
      by (cases "skip_ws r3") (auto split: if_splits)
    have "2 * length r4 + 1 \<le> n"
      using l3 skip_ws_Cons [OF q] b by linarith
    from op [OF this] o show False by blast
  qed
  have 3: "array_values (Suc n) vs s \<noteq> Inl RecursionError" if b: "2 * length s + 3 \<le> Suc n"
  proof
    assume h: "array_values (Suc n) vs s = Inl RecursionError"
    have "2 * length s + 2 \<le> n"
      using b by simp
    from so [OF this] h obtain w r0 where w: "scan_once n s = Inr (w, r0)"
      by (cases "scan_once n s") auto
    from h w obtain d r1 where d: "skip_ws r0 = d # r1"
      by (cases "skip_ws r0") auto
    from h w d have a: "array_values n (vs @ [w]) (skip_ws r1) = Inl RecursionError"
      by (auto split: if_splits)
    have "2 * length (skip_ws r1) + 3 \<le> n"
      using scan_once_rest [OF w] skip_ws_Cons [OF d] skip_ws_length [of r1] b by linarith
    from av [OF this] a show False by blast
  qed
  show ?case
    using 1 2 3 by blast
qed

lemma json_loads_no_recursion_error: "json_loads line \<noteq> Inl RecursionError"
proof -
  have "2 * length (skip_ws line) + 2 \<le> Suc (Suc (length line + length line))"
    using skip_ws_length [of line] by simp
  then have "scan_once (Suc (Suc (length line + length line))) (skip_ws line) \<noteq> Inl RecursionError"
    using enough_fuel by blast
  then show ?thesis
    by (auto simp: json_loads_def split: sum.splits if_splits)
qed

text \<open>The loop body on a line that parses to an object.\<close>

lemma process_line_object:
  assumes "py_strip line \<noteq> []" and "loads line = Inr (JObj obj)"
  shows "process_line loads line =
           (if message_is_object obj
            then Inr \<lparr>message = spec_text obj,
                      finish_reason = (if spec_done obj then ''stop'' else '''')\<rparr>
            else Inl AttributeError)"
proof (cases "map_of obj ''message''")
  case None
  with assms show ?thesis
    by (simp add: process_line_def message_is_object_def spec_text_def spec_done_def
        split: option.splits)
next
  case (Some m)
  with assms show ?thesis
    by (cases m)
      (simp_all add: process_line_def message_is_object_def spec_text_def spec_done_def
        split: option.splits)
qed

text \<open>The example lines, decoded.\<close>

lemma json_loads_line_hel:
  "json_loads line_hel =
     Inr (JObj [(''message'', JObj [(''content'', JStr ''Hel'')]), (''done'', JBool False)])"
  by (simp add: line_hel_def json_loads_def skip_ws_def is_ws_def py_dict_def)

lemma json_loads_line_lo:
  "json_loads line_lo =
     Inr (JObj [(''message'', JObj [(''content'', JStr ''lo'')]), (''done'', JBool False)])"
  by (simp add: line_lo_def json_loads_def skip_ws_def is_ws_def py_dict_def)

lemma json_loads_line_done:
  "json_loads line_done =
     Inr (JObj [(''message'', JObj [(''content'', JStr '''')]), (''done'', JBool True)])"
  by (simp add: line_done_def json_loads_def skip_ws_def is_ws_def py_dict_def)

lemma json_loads_line_bad: "json_loads line_bad = Inl JSONDecodeError"
  by (simp add: line_bad_def json_loads_def skip_ws_def is_ws_def match_integer_def
      is_digit_def)

lemma strip_examples:
  "py_strip line_hel \<noteq> []" "py_strip line_lo \<noteq> []" "py_strip line_done \<noteq> []"
  "py_strip line_bad \<noteq> []" "py_strip line_blank = []"
  by (simp_all add: py_strip_def is_space_def line_hel_def line_lo_def line_done_def
      line_bad_def line_blank_def)

lemma process_line_hel:
  "process_line json_loads line_hel = Inr \<lparr>message = JStr ''Hel'', finish_reason = ''''\<rparr>"
  by (simp add: process_line_def strip_examples json_loads_line_hel)

lemma process_line_lo:
  "process_line json_loads line_lo = Inr \<lparr>message = JStr ''lo'', finish_reason = ''''\<rparr>"
  by (simp add: process_line_def strip_examples json_loads_line_lo)

lemma process_line_done:
  "process_line json_loads line_done = Inr \<lparr>message = JStr '''', finish_reason = ''stop''\<rparr>"
  by (simp add: process_line_def strip_examples json_loads_line_done)

lemma example_env_url: "environ_get example_env ''OLLAMA_URL'' '''' \<noteq> ''''"
  by (simp add: example_env_def environ_get_def)

subsection \<open>The message list\<close>

text \<open>
  C5. For all query and context lists, the non-empty ones included, the last entry of the
  list built by \<open>prepare_messages\<close> has the role \<open>user\<close>, and its content is the fixed
  template around the context strings joined with single spaces and the query strings
  joined with single spaces. The strings are put in as they are, nothing is escaped.
\<close>

theorem final_user_message:
  "role (last (prepare_messages queries context conversation)) = ''user'' \<and>
   content (last (prepare_messages queries context conversation)) =
     ''With this provided context: '' @ [CHR 0x27] @ str_join '' '' context @ [CHR 0x27] @
     '' Please judge this instructor: '' @ [CHR 0x27] @ str_join '' '' queries @ [CHR 0x27]"
  by (simp add: prepare_messages_layout user_content_def)

text \<open>
  C6. For every conversation history the list built by \<open>prepare_messages\<close> is the fixed
  system message, then the history entries mapped to role and content in their original
  order, then the one new user message.
\<close>

theorem history_between_system_and_user:
  "prepare_messages queries context conversation =
     [\<lparr>role = ''system'', content = evaluate_instructor\<rparr>]
     @ map (\<lambda>m. \<lparr>role = item_type m, content = item_content m\<rparr>) conversation
     @ [\<lparr>role = ''user'', content = user_content queries context\<rparr>]"
  by (simp add: prepare_messages_def history_loop)

text \<open>
  C9. A call without a conversation runs exactly as a call with the empty history, and the
  one request it makes carries two messages: the system message and the user message.
\<close>

theorem absent_conversation_is_empty_history:
  "generate_stream loads post env queries context None
     = generate_stream loads post env queries context (Some []) \<and>
   map (\<lambda>(url, data). messages data)
       (posted (fst (generate_stream loads post env queries context None)))
     = [[\<lparr>role = ''system'', content = evaluate_instructor\<rparr>,
         \<lparr>role = ''user'', content = user_content queries context\<rparr>]]"
  by (simp add: generate_stream_def Let_def prepare_messages_layout posted_append
      posted_map_Yield case_prod_beta split: sum.splits)

subsection \<open>The missing endpoint\<close>

text \<open>
  C1. With no \<open>OLLAMA_URL\<close> in the environment the generator yields the fragment
  \<open>Missing Ollama URL\<close> with completion, and then goes on: whatever the transport does,
  the next event is the request to the URL \<open>/api/chat\<close>; and when the client refuses that
  URL, the exception reaches the caller. The claim that the call ends after the fragment,
  with no request and no exception, does not hold of the code.
\<close>

theorem missing_url_goes_on:
  "take 2 (fst (generate_stream loads post Map.empty queries context None)) =
     [Yield \<lparr>message = JStr ''Missing Ollama URL'', finish_reason = ''stop''\<rparr>,
      Post ''/api/chat''
        \<lparr>model = '''',
         messages = [\<lparr>role = ''system'', content = evaluate_instructor\<rparr>,
                     \<lparr>role = ''user'', content = user_content queries context\<rparr>]\<rparr>] \<and>
   generate_stream loads (\<lambda>url data. Inl InvalidURL) Map.empty queries context None =
     ([Yield \<lparr>message = JStr ''Missing Ollama URL'', finish_reason = ''stop''\<rparr>,
       Post ''/api/chat''
         \<lparr>model = '''',
          messages = [\<lparr>role = ''system'', content = evaluate_instructor\<rparr>,
                      \<lparr>role = ''user'', content = user_content queries context\<rparr>]\<rparr>],
      Raised InvalidURL)"
  by (simp add: generate_stream_def environ_get_def prepare_messages_layout Let_def
      case_prod_beta split: sum.splits)

subsection \<open>The fragments of a response body\<close>

text \<open>
  C2. With a configured endpoint and a response body of exactly the three lines
  \<open>{"message":{"content":"Hel"},"done":false}\<close>, \<open>{"message":{"content":"lo"},"done":false}\<close>
  and \<open>{"message":{"content":""},"done":true}\<close>, the generator yields exactly three
  fragments, in this order: \<open>Hel\<close> without completion, \<open>lo\<close> without completion, and the
  empty text with completion; then it returns.
\<close>

theorem three_line_body:
  assumes "environ_get env ''OLLAMA_URL'' '''' \<noteq> ''''"
  shows "yielded (fst (generate_stream json_loads
            (\<lambda>url data. Inr \<lparr>lines = [line_hel, line_lo, line_done], broken = None\<rparr>)
            env queries context conversation))
           = [\<lparr>message = JStr ''Hel'', finish_reason = ''''\<rparr>,
              \<lparr>message = JStr ''lo'', finish_reason = ''''\<rparr>,
              \<lparr>message = JStr '''', finish_reason = ''stop''\<rparr>] \<and>
         snd (generate_stream json_loads
            (\<lambda>url data. Inr \<lparr>lines = [line_hel, line_lo, line_done], broken = None\<rparr>)
            env queries context conversation) = Returned"
  by (simp add: generate_stream_configured [OF assms] process_line_hel process_line_lo
      process_line_done)

theorem three_line_body_witness:
  "environ_get example_env ''OLLAMA_URL'' '''' \<noteq> '''' \<and>
   yielded (fst (generate_stream json_loads
      (\<lambda>url data. Inr \<lparr>lines = [line_hel, line_lo, line_done], broken = None\<rparr>)
      example_env [''How was the lesson?''] [''Good morning, everyone!''] None))
     = [\<lparr>message = JStr ''Hel'', finish_reason = ''''\<rparr>,
        \<lparr>message = JStr ''lo'', finish_reason = ''''\<rparr>,
        \<lparr>message = JStr '''', finish_reason = ''stop''\<rparr>]"
  using three_line_body [OF example_env_url] example_env_url by simp

text \<open>
  C3. For every non-blank line that parses to a JSON object, the fragment emitted for it
  has as text the object's \<open>message.content\<close> (the empty string when absent) and as
  completion flag the object's \<open>done\<close> (false when absent); a true \<open>done\<close> and the text of
  the same object are reported together in that one fragment.
\<close>

theorem parsed_object_fragment:
  assumes "py_strip line \<noteq> []"
    and "loads line = Inr (JObj obj)"
    and "process_line loads line = Inr f"
  shows "message f = spec_text obj \<and> completion f = spec_done obj \<and>
         f = \<lparr>message = spec_text obj, finish_reason = (if spec_done obj then ''stop'' else '''')\<rparr>"
proof -
  have f: "f = \<lparr>message = spec_text obj,
                 finish_reason = (if spec_done obj then ''stop'' else '''')\<rparr>"
    using assms process_line_object [of line loads obj] by (simp split: if_splits)
  then show ?thesis by (simp add: completion_def)
qed

theorem parsed_object_fragment_witness:
  "py_strip line_done \<noteq> [] \<and>
   json_loads line_done =
     Inr (JObj [(''message'', JObj [(''content'', JStr '''')]), (''done'', JBool True)]) \<and>
   process_line json_loads line_done = Inr \<lparr>message = JStr '''', finish_reason = ''stop''\<rparr> \<and>
   spec_text [(''message'', JObj [(''content'', JStr '''')]), (''done'', JBool True)] = JStr '''' \<and>
   completion \<lparr>message = JStr '''', finish_reason = ''stop''\<rparr>
     = spec_done [(''message'', JObj [(''content'', JStr '''')]), (''done'', JBool True)]"
  using parsed_object_fragment [of line_done json_loads _ "\<lparr>message = JStr '''', finish_reason = ''stop''\<rparr>"]
    strip_examples(3) json_loads_line_done process_line_done
  by simp

text \<open>
  C4. With a configured endpoint, when the response body has a blank line behind lines
  that were read without an exception, the generator yields at that position one more
  fragment with the empty text and completion, and goes on reading: the fragments of the
  lines behind the blank line follow, and the run ends as reading those lines ends.
\<close>

theorem blank_line_marks_and_continues:
  assumes "environ_get env ''OLLAMA_URL'' '''' \<noteq> ''''"
    and "py_strip blank = []"
    and "read_lines loads before None = (fs, Returned)"
  shows "yielded (fst (generate_stream loads
            (\<lambda>url data. Inr \<lparr>lines = before @ blank # after, broken = brk\<rparr>)
            env queries context conversation))
           = fs @ \<lparr>message = JStr '''', finish_reason = ''stop''\<rparr>
                # fst (read_lines loads after brk) \<and>
         snd (generate_stream loads
            (\<lambda>url data. Inr \<lparr>lines = before @ blank # after, broken = brk\<rparr>)
            env queries context conversation)
           = snd (read_lines loads after brk)"
proof -
  have "process_line loads blank = Inr \<lparr>message = JStr '''', finish_reason = ''stop''\<rparr>"
    using assms(2) by (simp add: process_line_def)
  then have "read_lines loads (blank # after) brk =
      (\<lparr>message = JStr '''', finish_reason = ''stop''\<rparr> # fst (read_lines loads after brk),
       snd (read_lines loads after brk))"
    by (simp add: case_prod_beta)
  then have "read_lines loads (before @ blank # after) brk =
      (fs @ \<lparr>message = JStr '''', finish_reason = ''stop''\<rparr> # fst (read_lines loads after brk),
       snd (read_lines loads after brk))"
    using assms(3) by (simp add: read_lines_append)
  then show ?thesis
    by (simp add: generate_stream_configured [OF assms(1)])
qed

theorem blank_line_marks_and_continues_witness:
  "environ_get example_env ''OLLAMA_URL'' '''' \<noteq> '''' \<and>
   py_strip line_blank = [] \<and>
   read_lines json_loads [line_hel] None
     = ([\<lparr>message = JStr ''Hel'', finish_reason = ''''\<rparr>], Returned) \<and>
   yielded (fst (generate_stream json_loads
      (\<lambda>url data. Inr \<lparr>lines = [line_hel] @ line_blank # [line_lo], broken = None\<rparr>)
      example_env [''How was the lesson?''] [''Good morning, everyone!''] None))
     = [\<lparr>message = JStr ''Hel'', finish_reason = ''''\<rparr>,
        \<lparr>message = JStr '''', finish_reason = ''stop''\<rparr>,
        \<lparr>message = JStr ''lo'', finish_reason = ''''\<rparr>]"
proof -
  have r: "read_lines json_loads [line_hel] None
             = ([\<lparr>message = JStr ''Hel'', finish_reason = ''''\<rparr>], Returned)"
    by (simp add: process_line_hel)
  show ?thesis
    using blank_line_marks_and_continues [OF example_env_url strip_examples(5) r,
        of "[line_lo]" None "[''How was the lesson?'']" "[''Good morning, everyone!'']" None]
      example_env_url strip_examples(5) r
    by (simp add: process_line_lo)
qed

text \<open>
  C7. With a configured endpoint, when the response body has a non-blank line that the
  decoder rejects, the run ends by raising: the fragments yielded are exactly those of the
  lines before that line, none of that line or of a later one, and the exception is the
  decoder's unless a line before already raised.
\<close>

theorem malformed_line_is_fatal:
  assumes "environ_get env ''OLLAMA_URL'' '''' \<noteq> ''''"
    and "py_strip bad \<noteq> []"
    and "loads bad = Inl e"
  shows "yielded (fst (generate_stream loads
            (\<lambda>url data. Inr \<lparr>lines = before @ bad # after, broken = brk\<rparr>)
            env queries context conversation))
           = fst (read_lines loads before None) \<and>
         snd (generate_stream loads
            (\<lambda>url data. Inr \<lparr>lines = before @ bad # after, broken = brk\<rparr>)
            env queries context conversation)
           = (case snd (read_lines loads before None) of
                Returned \<Rightarrow> Raised e
              | Raised e' \<Rightarrow> Raised e')"
proof -
  have "process_line loads bad = Inl e"
    using assms(2,3) by (simp add: process_line_def)
  then have "read_lines loads (bad # after) brk = ([], Raised e)"
    by simp
  then have "read_lines loads (before @ bad # after) brk =
      (fst (read_lines loads before None),
       case snd (read_lines loads before None) of Returned \<Rightarrow> Raised e | Raised e' \<Rightarrow> Raised e')"
    by (simp add: read_lines_append split: outcome.splits)
  then show ?thesis
    by (simp add: generate_stream_configured [OF assms(1)])
qed

theorem malformed_line_is_fatal_witness:
  "environ_get example_env ''OLLAMA_URL'' '''' \<noteq> '''' \<and>
   py_strip line_bad \<noteq> [] \<and>
   json_loads line_bad = Inl JSONDecodeError \<and>
   generate_stream json_loads
      (\<lambda>url data. Inr \<lparr>lines = [line_hel] @ line_bad # [line_lo], broken = None\<rparr>)
      example_env [''How was the lesson?''] [''Good morning, everyone!''] None
     = ([Post ''http://localhost:11434/api/chat''
           \<lparr>model = ''llama3'',
            messages = prepare_messages [''How was the lesson?''] [''Good morning, everyone!''] []\<rparr>,
         Yield \<lparr>message = JStr ''Hel'', finish_reason = ''''\<rparr>],
        Raised JSONDecodeError)"
proof -
  have run: "generate_stream json_loads
      (\<lambda>url data. Inr \<lparr>lines = [line_hel] @ line_bad # [line_lo], broken = None\<rparr>)
      example_env [''How was the lesson?''] [''Good morning, everyone!''] None
     = ([Post ''http://localhost:11434/api/chat''
           \<lparr>model = ''llama3'',
            messages = prepare_messages [''How was the lesson?''] [''Good morning, everyone!''] []\<rparr>]
         @ map Yield (fst (read_lines json_loads ([line_hel] @ line_bad # [line_lo]) None)),
        snd (read_lines json_loads ([line_hel] @ line_bad # [line_lo]) None))"
    by (simp add: generate_stream_def example_env_def environ_get_def Let_def case_prod_beta)
  have "yielded (fst (generate_stream json_loads
      (\<lambda>url data. Inr \<lparr>lines = [line_hel] @ line_bad # [line_lo], broken = None\<rparr>)
      example_env [''How was the lesson?''] [''Good morning, everyone!''] None))
        = [\<lparr>message = JStr ''Hel'', finish_reason = ''''\<rparr>] \<and>
     snd (generate_stream json_loads
      (\<lambda>url data. Inr \<lparr>lines = [line_hel] @ line_bad # [line_lo], broken = None\<rparr>)
      example_env [''How was the lesson?''] [''Good morning, everyone!''] None)
        = Raised JSONDecodeError"
    using malformed_line_is_fatal [of example_env line_bad json_loads JSONDecodeError
          "[line_hel]" "[line_lo]" None "[''How was the lesson?'']"
          "[''Good morning, everyone!'']" None]
      example_env_url strip_examples(4) json_loads_line_bad
    by (simp add: process_line_hel)
  then have "fst (read_lines json_loads ([line_hel] @ line_bad # [line_lo]) None)
               = [\<lparr>message = JStr ''Hel'', finish_reason = ''''\<rparr>]"
    and "snd (read_lines json_loads ([line_hel] @ line_bad # [line_lo]) None)
               = Raised JSONDecodeError"
    unfolding run by (simp_all add: yielded_map_Yield)
  then show ?thesis
    unfolding run using example_env_url strip_examples(4) json_loads_line_bad by simp
qed

subsection \<open>Every fragment\<close>

text \<open>
  C10. Every fragment that a run yields, on every path, is a record of the two fields
  \<open>message\<close> and \<open>finish_reason\<close>, and its \<open>finish_reason\<close> is the empty string or \<open>stop\<close>.
\<close>

theorem finish_reason_empty_or_stop:
  "\<forall>f \<in> set (yielded (fst (generate_stream loads post env queries context conversation))).
     finish_reason f = '''' \<or> finish_reason f = ''stop''"
proof
  fix f
  assume f: "f \<in> set (yielded (fst (generate_stream loads post env queries context conversation)))"
  let ?url = "environ_get env ''OLLAMA_URL'' '''' @ ''/api/chat''"
  let ?data = "\<lparr>model = environ_get env ''OLLAMA_MODEL'' '''',
                messages = prepare_messages queries context
                  (case conversation of None \<Rightarrow> [] | Some c \<Rightarrow> c)\<rparr>"
  let ?missing = "\<lparr>message = JStr ''Missing Ollama URL'', finish_reason = ''stop''\<rparr>"
  show "finish_reason f = '''' \<or> finish_reason f = ''stop''"
  proof (cases "post ?url ?data")
    case (Inl e)
    with f have "f = ?missing"
      by (simp add: generate_stream_def Let_def yielded_append split: if_splits)
    then show ?thesis by simp
  next
    case (Inr r)
    with f have "f = ?missing \<or> f \<in> set (fst (read_lines loads (lines r) (broken r)))"
      by (auto simp: generate_stream_def Let_def yielded_append yielded_map_Yield
          case_prod_beta split: if_splits)
    then show ?thesis
      using read_lines_finish_reason by fastforce
  qed
qed

theorem finish_reason_empty_or_stop_witness:
  "\<lparr>message = JStr ''Missing Ollama URL'', finish_reason = ''stop''\<rparr>
     \<in> set (yielded (fst (generate_stream json_loads
           (\<lambda>url data. Inr \<lparr>lines = [line_hel, line_blank], broken = None\<rparr>)
           Map.empty [''How was the lesson?''] [''Good morning, everyone!''] None))) \<and>
   (finish_reason \<lparr>message = JStr ''Missing Ollama URL'', finish_reason = ''stop''\<rparr> = '''' \<or>
    finish_reason \<lparr>message = JStr ''Missing Ollama URL'', finish_reason = ''stop''\<rparr> = ''stop'')"
proof -
  have m: "\<lparr>message = JStr ''Missing Ollama URL'', finish_reason = ''stop''\<rparr>
     \<in> set (yielded (fst (generate_stream json_loads
           (\<lambda>url data. Inr \<lparr>lines = [line_hel, line_blank], broken = None\<rparr>)
           Map.empty [''How was the lesson?''] [''Good morning, everyone!''] None)))"
    by (simp add: generate_stream_def environ_get_def Let_def case_prod_beta yielded_append)
  show ?thesis
    using finish_reason_empty_or_stop [of json_loads
        "\<lambda>url data. Inr \<lparr>lines = [line_hel, line_blank], broken = None\<rparr>"
        Map.empty "[''How was the lesson?'']" "[''Good morning, everyone!'']" None] m
    by blast
qed

subsection \<open>Determinism\<close>

text \<open>
  C8. Two calls with the same queries, context and conversation, in environments that
  agree on \<open>OLLAMA_URL\<close> and \<open>OLLAMA_MODEL\<close>, against transports that answer the request
  of the call in the same way, have the same run: the same fragments in the same order,
  and the same end. The run depends on nothing else.
\<close>

theorem generate_stream_deterministic:
  assumes "env1 ''OLLAMA_URL'' = env2 ''OLLAMA_URL''"
    and "env1 ''OLLAMA_MODEL'' = env2 ''OLLAMA_MODEL''"
    and "post1 (environ_get env1 ''OLLAMA_URL'' '''' @ ''/api/chat'')
            \<lparr>model = environ_get env1 ''OLLAMA_MODEL'' '''',
             messages = prepare_messages queries context
               (case conversation of None \<Rightarrow> [] | Some c \<Rightarrow> c)\<rparr>
         = post2 (environ_get env1 ''OLLAMA_URL'' '''' @ ''/api/chat'')
            \<lparr>model = environ_get env1 ''OLLAMA_MODEL'' '''',
             messages = prepare_messages queries context
               (case conversation of None \<Rightarrow> [] | Some c \<Rightarrow> c)\<rparr>"
  shows "generate_stream loads post1 env1 queries context conversation
           = generate_stream loads post2 env2 queries context conversation"
proof -
  have "environ_get env1 ''OLLAMA_URL'' '''' = environ_get env2 ''OLLAMA_URL'' ''''"
    and "environ_get env1 ''OLLAMA_MODEL'' '''' = environ_get env2 ''OLLAMA_MODEL'' ''''"
    using assms(1,2) by (simp_all add: environ_get_def)
  then show ?thesis
    using assms(3) by (simp add: generate_stream_def Let_def)
qed

theorem generate_stream_deterministic_witness:
  "example_env ''OLLAMA_URL'' = (example_env(''HOME'' \<mapsto> ''/root'')) ''OLLAMA_URL'' \<and>
   example_env ''OLLAMA_MODEL'' = (example_env(''HOME'' \<mapsto> ''/root'')) ''OLLAMA_MODEL'' \<and>
   generate_stream json_loads
      (\<lambda>url data. Inr \<lparr>lines = [line_hel, line_done], broken = None\<rparr>)
      example_env [''How was the lesson?''] [''Good morning, everyone!''] None
     = generate_stream json_loads
      (\<lambda>url data. if url = ''http://localhost:11434/api/chat''
                   then Inr \<lparr>lines = [line_hel, line_done], broken = None\<rparr>
                   else Inl InvalidURL)
      (example_env(''HOME'' \<mapsto> ''/root''))
      [''How was the lesson?''] [''Good morning, everyone!''] None"
proof -
  have u: "example_env ''OLLAMA_URL'' = (example_env(''HOME'' \<mapsto> ''/root'')) ''OLLAMA_URL''"
    and m: "example_env ''OLLAMA_MODEL'' = (example_env(''HOME'' \<mapsto> ''/root'')) ''OLLAMA_MODEL''"
    by simp_all
  have url: "environ_get example_env ''OLLAMA_URL'' '''' = ''http://localhost:11434''"
    by (simp add: example_env_def environ_get_def)
  show ?thesis
    using generate_stream_deterministic [of example_env "example_env(''HOME'' \<mapsto> ''/root'')"
        "\<lambda>url data. Inr \<lparr>lines = [line_hel, line_done], broken = None\<rparr>"
        "[''How was the lesson?'']" "[''Good morning, everyone!'']" None
        "\<lambda>url data. if url = ''http://localhost:11434/api/chat''
                   then Inr \<lparr>lines = [line_hel, line_done], broken = None\<rparr>
                   else Inl InvalidURL"
        json_loads, OF u m] u m
    by (simp add: url)
qed

end
